theory Spec2Isabelle
  imports Main "HOL-Library.AList" "HOL-Library.Multiset"
begin

section \<open>The document store\<close>

text \<open>
  The adapter \<^verbatim>\<open>OpenSearchUserDatabase\<close> keeps no state of its own: every operation is a
  sequence of requests to the search engine's client. The state of the program is therefore
  the content of the two collections it talks to, \<^verbatim>\<open>user\<close> and \<^verbatim>\<open>oauth_account\<close>, and
  every operation of the adapter takes the store and, when it writes, returns the new one.

  A document is a dictionary from field names to values. Every field the adapter looks at
  (identifiers, the email address, the provider name, the account id, the back-reference)
  is a string in the source; the other fields are carried through untouched and are kept
  here in their text form. A UUID is its canonical string, so \<^verbatim>\<open>str(id)\<close> is the
  identity. A collection lists its documents with their identifiers.
\<close>

type_synonym doc = "string \<rightharpoonup> string"

type_synonym index = "(string \<times> doc) list"

record store =
  user_index :: index
  oauth_account_index :: index

datatype error = NotFoundError | Exception | KeyError | ValidationError

text \<open>
  The two query shapes the adapter sends: \<^verbatim>\<open>{"match": {"f.keyword": v}}\<close>, which holds of a
  document when its field \<^verbatim>\<open>f\<close> is exactly the string \<^verbatim>\<open>v\<close>, and
  \<^verbatim>\<open>{"bool": {"must": [...]}}\<close>, which holds when every listed query does.
\<close>

datatype query = Match string string | Bool_must "query list"

fun matches :: "query \<Rightarrow> doc \<Rightarrow> bool" where
  "matches (Match field v) d = (d field = Some v)"
| "matches (Bool_must qs) d = list_all (\<lambda>q. matches q d) qs"

subsection \<open>The client\<close>

text \<open>
  Modelled from the spec: the search engine and its client library (\<^verbatim>\<open>AsyncOpenSearch\<close>,
  \<^verbatim>\<open>async_bulk\<close>) are outside the repository; \<open>client_get\<close>, \<open>client_search\<close>,
  \<open>client_index\<close>, \<open>client_update\<close>, \<open>client_delete\<close>, \<open>client_delete_by_query\<close> and
  \<open>async_bulk\<close> below stand for them. Section 6 of the specification gives the
  consumed interface: get, search, index, update, delete, deleteByQuery and bulkWrite on a
  keyed collection, with exact-match queries; both collections exist, and a write is visible
  to the reads that follow it. A hit of a search is the pair of the document's \<^verbatim>\<open>_id\<close> and
  its \<^verbatim>\<open>_source\<close>. The engine does not fix the order of hits: the model lists them in
  storage order, and the theorems about lists of hits are stated up to permutation.
\<close>

definition client_get :: "index \<Rightarrow> string \<Rightarrow> error + doc" where
  "client_get idx i = (case map_of idx i of None \<Rightarrow> Inl NotFoundError | Some d \<Rightarrow> Inr d)"

definition client_search :: "index \<Rightarrow> query \<Rightarrow> (string \<times> doc) list" where
  "client_search idx q = filter (\<lambda>h. matches q (snd h)) idx"

definition client_index :: "index \<Rightarrow> string \<Rightarrow> doc \<Rightarrow> index" where
  "client_index idx i body = AList.update i body idx"

definition client_update :: "index \<Rightarrow> string \<Rightarrow> doc \<Rightarrow> error + index" where
  "client_update idx i partial =
     (case map_of idx i of
        None \<Rightarrow> Inl NotFoundError
      | Some d \<Rightarrow> Inr (AList.update i (d ++ partial) idx))"

definition client_delete :: "index \<Rightarrow> string \<Rightarrow> error + index" where
  "client_delete idx i =
     (case map_of idx i of
        None \<Rightarrow> Inl NotFoundError
      | Some d \<Rightarrow> Inr (AList.delete i idx))"

definition client_delete_by_query :: "index \<Rightarrow> query \<Rightarrow> index" where
  "client_delete_by_query idx q = filter (\<lambda>h. \<not> matches q (snd h)) idx"

text \<open>
  A bulk action is a dictionary: its \<^verbatim>\<open>_id\<close> and \<^verbatim>\<open>_index\<close> entries are metadata, the
  rest is the document. The engine gives an action without \<^verbatim>\<open>_id\<close> an identifier of its
  own that is not in use.
\<close>

definition auto_id :: "index \<Rightarrow> string" where
  "auto_id idx = replicate (Suc (foldr (\<lambda>h n. max (length (fst h)) n) idx 0)) (CHR ''0'')"

fun async_bulk :: "index \<Rightarrow> doc list \<Rightarrow> index" where
  "async_bulk idx [] = idx"
| "async_bulk idx (action # actions) =
     async_bulk
       (client_index idx
          (case action ''_id'' of None \<Rightarrow> auto_id idx | Some i \<Rightarrow> i)
          (action(''_id'' := None, ''_index'' := None)))
       actions"

section \<open>The user record\<close>

text \<open>
  \<^verbatim>\<open>str.lower()\<close> on the letters of ASCII.
\<close>

definition lower_char :: "char \<Rightarrow> char" where
  "lower_char c =
     (if c = CHR ''A'' then CHR ''a'' else if c = CHR ''B'' then CHR ''b''
      else if c = CHR ''C'' then CHR ''c'' else if c = CHR ''D'' then CHR ''d''
      else if c = CHR ''E'' then CHR ''e'' else if c = CHR ''F'' then CHR ''f''
      else if c = CHR ''G'' then CHR ''g'' else if c = CHR ''H'' then CHR ''h''
      else if c = CHR ''I'' then CHR ''i'' else if c = CHR ''J'' then CHR ''j''
      else if c = CHR ''K'' then CHR ''k'' else if c = CHR ''L'' then CHR ''l''
      else if c = CHR ''M'' then CHR ''m'' else if c = CHR ''N'' then CHR ''n''
      else if c = CHR ''O'' then CHR ''o'' else if c = CHR ''P'' then CHR ''p''
      else if c = CHR ''Q'' then CHR ''q'' else if c = CHR ''R'' then CHR ''r''
      else if c = CHR ''S'' then CHR ''s'' else if c = CHR ''T'' then CHR ''t''
      else if c = CHR ''U'' then CHR ''u'' else if c = CHR ''V'' then CHR ''v''
      else if c = CHR ''W'' then CHR ''w'' else if c = CHR ''X'' then CHR ''x''
      else if c = CHR ''Y'' then CHR ''y'' else if c = CHR ''Z'' then CHR ''z''
      else c)"

definition lower :: "string \<Rightarrow> string" where
  "lower s = map lower_char s"

text \<open>
  Modelled from the spec: the framework's typed user record (the pydantic class handed to
  the adapter as \<^verbatim>\<open>user_db_model\<close>) is outside the repository; the record \<open>user\<close> with
  \<open>dict\<close> and \<open>user_db_model\<close> below stands for it. The adapter reads the
  attributes \<^verbatim>\<open>id\<close> and \<^verbatim>\<open>email\<close> of a record, turns it into a dictionary with
  \<^verbatim>\<open>dict()\<close> and builds one from keyword arguments. The record "may optionally include a
  linked-login-entries field" (section 6), "an optional container" (section 9): here
  \<open>oauth_accounts\<close> is \<open>None\<close> when the field is absent, and each entry is the dictionary
  \<^verbatim>\<open>dict()\<close> gives for it. \<open>other_fields\<close> holds the record's other fields.
\<close>

record user =
  user_id :: string
  email :: string
  other_fields :: doc
  oauth_accounts :: "doc list option"

definition dict :: "user \<Rightarrow> doc" where
  "dict user = (other_fields user)(''id'' \<mapsto> user_id user, ''email'' \<mapsto> email user)"

definition user_db_model :: "doc \<Rightarrow> doc list option \<Rightarrow> error + user" where
  "user_db_model user_dict accounts =
     (case user_dict ''id'' of
        None \<Rightarrow> Inl ValidationError
      | Some i \<Rightarrow>
          (case user_dict ''email'' of
             None \<Rightarrow> Inl ValidationError
           | Some e \<Rightarrow>
               Inr \<lparr>user_id = i, email = e,
                    other_fields = user_dict(''id'' := None, ''email'' := None),
                    oauth_accounts = accounts\<rparr>))"

section \<open>The adapter\<close>

text \<open>
  \<^verbatim>\<open>_make_user\<close>: the search for the linked-login documents whose back-reference is the
  user's id; when there are hits they become the \<^verbatim>\<open>oauth_accounts\<close> keyword, each
  \<^verbatim>\<open>{"id": a["_id"], **a["_source"]}\<close>, otherwise the keyword is not passed.
\<close>

definition make_user :: "store \<Rightarrow> doc \<Rightarrow> error + user" where
  "make_user s user =
     (case user ''id'' of
        None \<Rightarrow> Inl KeyError
      | Some i \<Rightarrow>
          (let hits = client_search (oauth_account_index s) (Match ''user_id'' i)
           in user_db_model user
                (if hits \<noteq> []
                 then Some (map (\<lambda>a. [''id'' \<mapsto> fst a] ++ snd a) hits)
                 else None)))"

text \<open>
  The three lookups. \<^verbatim>\<open>get\<close> catches the client's \<^verbatim>\<open>NotFoundError\<close> and nothing else; the
  two searches take the first hit, and \<^verbatim>\<open>get_by_oauth_account\<close> hands the back-reference of
  its hit to \<^verbatim>\<open>get\<close>. None of them writes, so they return a result only.
\<close>

definition get :: "store \<Rightarrow> string \<Rightarrow> error + user option" where
  "get s i =
     (case client_get (user_index s) i of
        Inl NotFoundError \<Rightarrow> Inr None
      | Inl e \<Rightarrow> Inl e
      | Inr source \<Rightarrow>
          (case make_user s (source(''id'' \<mapsto> i)) of
             Inl e \<Rightarrow> Inl e
           | Inr u \<Rightarrow> Inr (Some u)))"

definition get_by_email :: "store \<Rightarrow> string \<Rightarrow> error + user option" where
  "get_by_email s address =
     (case client_search (user_index s) (Match ''email'' (lower address)) of
        [] \<Rightarrow> Inr None
      | hit # _ \<Rightarrow>
          (case make_user s ((snd hit)(''id'' \<mapsto> fst hit)) of
             Inl e \<Rightarrow> Inl e
           | Inr u \<Rightarrow> Inr (Some u)))"

definition get_by_oauth_account :: "store \<Rightarrow> string \<Rightarrow> string \<Rightarrow> error + user option" where
  "get_by_oauth_account s oauth account_id =
     (case client_search (oauth_account_index s)
             (Bool_must [Match ''oauth_name'' oauth, Match ''account_id'' account_id]) of
        [] \<Rightarrow> Inr None
      | hit # _ \<Rightarrow>
          (case snd hit ''user_id'' of
             None \<Rightarrow> Inl KeyError
           | Some i \<Rightarrow> get s i))"

text \<open>
  The loop of \<^verbatim>\<open>create\<close> and \<^verbatim>\<open>update\<close> that turns the record's linked-login entries into
  bulk actions. \<^verbatim>\<open>oauth_account.pop("id")\<close> raises when an entry has no id; the entry's own
  keys come last in the dictionary display and so win over the three the adapter sets.
\<close>

fun oauth_accounts_values :: "string \<Rightarrow> doc list \<Rightarrow> error + doc list" where
  "oauth_accounts_values uid [] = Inr []"
| "oauth_accounts_values uid (oauth_account # accounts) =
     (case oauth_account ''id'' of
        None \<Rightarrow> Inl KeyError
      | Some oauth_account_id \<Rightarrow>
          (case oauth_accounts_values uid accounts of
             Inl e \<Rightarrow> Inl e
           | Inr values \<Rightarrow>
               Inr (([''_id'' \<mapsto> oauth_account_id, ''_index'' \<mapsto> ''oauth_account'',
                      ''user_id'' \<mapsto> uid] ++ oauth_account(''id'' := None)) # values)))"

text \<open>
  \<^verbatim>\<open>create\<close>, in the order of the source: the bulk actions are built first (when the record
  has the field), then comes the duplicate check (a record is always truthy, so any hit
  raises), then the user document is indexed under the user's id with the email lowercased
  and the key \<^verbatim>\<open>id\<close> taken out, then the bulk write. \<^verbatim>\<open>user.dict()\<close> is a fresh dictionary, so
  the record handed back is the one that came in. The writes return the store they leave,
  also when they fail.
\<close>

definition create :: "store \<Rightarrow> user \<Rightarrow> store \<times> (error + user)" where
  "create s user =
     (case (case oauth_accounts user of
              None \<Rightarrow> Inr None
            | Some accounts \<Rightarrow>
                (case oauth_accounts_values (user_id user) accounts of
                   Inl e \<Rightarrow> Inl e
                 | Inr values \<Rightarrow> Inr (Some values))) of
        Inl e \<Rightarrow> (s, Inl e)
      | Inr values \<Rightarrow>
          (case get_by_email s (lower (email user)) of
             Inl e \<Rightarrow> (s, Inl e)
           | Inr (Some found) \<Rightarrow> (s, Inl Exception)
           | Inr None \<Rightarrow>
               (let user_dict = (dict user)(''email'' \<mapsto> lower (email user));
                    s1 = s\<lparr>user_index :=
                            client_index (user_index s) (user_id user) (user_dict(''id'' := None))\<rparr>
                in (case values of
                      None \<Rightarrow> (s1, Inr user)
                    | Some actions \<Rightarrow>
                        (s1\<lparr>oauth_account_index := async_bulk (oauth_account_index s1) actions\<rparr>,
                         Inr user)))))"

text \<open>
  \<^verbatim>\<open>update\<close>: when the record has the field, the delete by query runs before the loop over
  the entries, so a \<^verbatim>\<open>KeyError\<close> of the loop leaves the store with the old linked logins
  gone; then the bulk write; then the partial update of the user document, with the email as
  the record has it. The client raises \<^verbatim>\<open>NotFoundError\<close> when there is no such document.
\<close>

definition update :: "store \<Rightarrow> user \<Rightarrow> store \<times> (error + user)" where
  "update s user =
     (case (case oauth_accounts user of
              None \<Rightarrow> Inr s
            | Some accounts \<Rightarrow>
                (let s1 = s\<lparr>oauth_account_index :=
                              client_delete_by_query (oauth_account_index s)
                                (Match ''user_id'' (user_id user))\<rparr>
                 in (case oauth_accounts_values (user_id user) accounts of
                       Inl e \<Rightarrow> Inl (s1, e)
                     | Inr actions \<Rightarrow>
                         Inr (s1\<lparr>oauth_account_index :=
                                   async_bulk (oauth_account_index s1) actions\<rparr>)))) of
        Inl (s1, e) \<Rightarrow> (s1, Inl e)
      | Inr s2 \<Rightarrow>
          (case client_update (user_index s2) (user_id user) ((dict user)(''id'' := None)) of
             Inl e \<Rightarrow> (s2, Inl e)
           | Inr idx \<Rightarrow> (s2\<lparr>user_index := idx\<rparr>, Inr user)))"

text \<open>
  \<^verbatim>\<open>delete\<close>: one request, on the user collection.
\<close>

definition delete :: "store \<Rightarrow> user \<Rightarrow> store \<times> (error + unit)" where
  "delete s user =
     (case client_delete (user_index s) (user_id user) of
        Inl e \<Rightarrow> (s, Inl e)
      | Inr idx \<Rightarrow> (s\<lparr>user_index := idx\<rparr>, Inr ()))"

section \<open>Vocabulary of the statements\<close>

text \<open>
  The linked-login entries a record carries: none when the field is absent.
\<close>

definition entries :: "user \<Rightarrow> doc list" where
  "entries user = (case oauth_accounts user of None \<Rightarrow> [] | Some accounts \<Rightarrow> accounts)"


text \<open>
  The \<^verbatim>\<open>oauth_accounts\<close> keyword \<open>make_user\<close> computes for the user id \<open>i\<close>.
\<close>

definition linked_accounts :: "store \<Rightarrow> string \<Rightarrow> doc list option" where
  "linked_accounts s i =
     (let hits = client_search (oauth_account_index s) (Match ''user_id'' i)
      in if hits \<noteq> [] then Some (map (\<lambda>a. [''id'' \<mapsto> fst a] ++ snd a) hits) else None)"

subsection \<open>Example records and stores\<close>

definition empty_store :: store where
  "empty_store = \<lparr>user_index = [], oauth_account_index = []\<rparr>"

definition google_account :: doc where
  "google_account =
     [''id'' \<mapsto> ''o1'', ''oauth_name'' \<mapsto> ''google'', ''account_id'' \<mapsto> ''g-17'']"

definition github_account :: doc where
  "github_account =
     [''id'' \<mapsto> ''o2'', ''oauth_name'' \<mapsto> ''github'', ''account_id'' \<mapsto> ''h-42'']"


definition alice :: user where
  "alice = \<lparr>user_id = ''u1'', email = ''A@B.com'',
            other_fields = [''hashed_password'' \<mapsto> ''x''],
            oauth_accounts = Some [google_account, github_account]\<rparr>"

definition bob :: user where
  "bob = \<lparr>user_id = ''u2'', email = ''bob@c.org'',
          other_fields = [''hashed_password'' \<mapsto> ''y''],
          oauth_accounts = None\<rparr>"

definition carol :: user where
  "carol = \<lparr>user_id = ''u3'', email = ''a@b.com'',
            other_fields = [''hashed_password'' \<mapsto> ''z''],
            oauth_accounts = None\<rparr>"


text \<open>The store after \<open>create empty_store alice\<close>.\<close>

definition alice_store :: store where
  "alice_store =
     \<lparr>user_index = [(''u1'', [''hashed_password'' \<mapsto> ''x'', ''email'' \<mapsto> ''a@b.com''])],
      oauth_account_index =
        [(''o1'', [''user_id'' \<mapsto> ''u1'', ''oauth_name'' \<mapsto> ''google'',
                   ''account_id'' \<mapsto> ''g-17'']),
         (''o2'', [''user_id'' \<mapsto> ''u1'', ''oauth_name'' \<mapsto> ''github'',
                   ''account_id'' \<mapsto> ''h-42''])]\<rparr>"

section \<open>Lemmas about the client and the adapter\<close>

lemmas examples = empty_store_def google_account_def github_account_def alice_def
  alice_store_def

lemmas adapter_defs = create_def update_def delete_def get_def get_by_email_def
  get_by_oauth_account_def make_user_def user_db_model_def dict_def
  client_get_def client_search_def client_index_def client_update_def client_delete_def
  client_delete_by_query_def lower_def lower_char_def Let_def

lemma lower_char_idem: "lower_char (lower_char c) = lower_char c"
  by (simp add: lower_char_def)

lemma lower_lower: "lower (lower s) = lower s"
  by (simp add: lower_def lower_char_idem)



lemma get_stored:
  assumes "map_of (user_index s) i = Some d" and "d ''email'' = Some e"
  shows "get s i = Inr (Some \<lparr>user_id = i, email = e,
            other_fields = d(''id'' := None, ''email'' := None),
            oauth_accounts = linked_accounts s i\<rparr>)"
  using assms
  by (simp add: get_def client_get_def make_user_def user_db_model_def linked_accounts_def
      Let_def fun_upd_twist)

lemma get_by_email_hit:
  assumes "client_search (user_index s) (Match ''email'' (lower address)) = (i, d) # hits"
  shows "get_by_email s address = Inr (Some \<lparr>user_id = i, email = lower address,
            other_fields = d(''id'' := None, ''email'' := None),
            oauth_accounts = linked_accounts s i\<rparr>)"
proof -
  have "(i, d) \<in> set (client_search (user_index s) (Match ''email'' (lower address)))"
    using assms by simp
  then have "d ''email'' = Some (lower address)"
    by (simp add: client_search_def)
  then show ?thesis
    using assms
    by (simp add: get_by_email_def make_user_def user_db_model_def linked_accounts_def
        Let_def fun_upd_twist)
qed


subsection \<open>The loop over the linked-login entries\<close>

lemma oauth_accounts_values_total:
  "\<forall>e\<in>set es. e ''id'' \<noteq> None \<Longrightarrow> \<exists>vs. oauth_accounts_values uid es = Inr vs"
  by (induction es) auto

lemma oauth_accounts_values_ids:
  "oauth_accounts_values uid es = Inr vs \<Longrightarrow> \<forall>e\<in>set es. e ''id'' \<noteq> None"
  by (induction es arbitrary: vs) (auto split: option.splits sum.splits)

lemma oauth_accounts_values_error:
  "oauth_accounts_values uid es = Inl x \<Longrightarrow> x = KeyError"
  by (induction es arbitrary: x) (auto split: option.splits sum.splits)

lemma oauth_accounts_values_KeyError:
  assumes "\<exists>e\<in>set es. e ''id'' = None"
  shows "oauth_accounts_values uid es = Inl KeyError"
proof (cases "oauth_accounts_values uid es")
  case (Inl x)
  then show ?thesis using oauth_accounts_values_error by blast
next
  case (Inr vs)
  then show ?thesis using oauth_accounts_values_ids assms by blast
qed



subsection \<open>What a successful call has done\<close>

lemma create_success:
  assumes "create s u = (s', Inr r)"
  shows "r = u"
    and "client_search (user_index s) (Match ''email'' (lower (email u))) = []"
    and "user_index s' = client_index (user_index s) (user_id u)
           ((dict u)(''email'' \<mapsto> lower (email u), ''id'' := None))"
    and "case oauth_accounts u of
           None \<Rightarrow> oauth_account_index s' = oauth_account_index s
         | Some es \<Rightarrow> \<exists>vs. oauth_accounts_values (user_id u) es = Inr vs \<and>
               oauth_account_index s' = async_bulk (oauth_account_index s) vs"
  using assms
  by (auto simp: create_def Let_def get_by_email_def lower_lower
      split: option.splits sum.splits list.splits)

lemma update_success:
  assumes "update s u = (s', Inr r)"
  shows "r = u"
    and "\<exists>d. map_of (user_index s) (user_id u) = Some d \<and>
           user_index s' =
             AList.update (user_id u) (d ++ (dict u)(''id'' := None)) (user_index s)"
    and "case oauth_accounts u of
           None \<Rightarrow> oauth_account_index s' = oauth_account_index s
         | Some es \<Rightarrow> \<exists>vs. oauth_accounts_values (user_id u) es = Inr vs \<and>
               oauth_account_index s' =
                 async_bulk (client_delete_by_query (oauth_account_index s)
                    (Match ''user_id'' (user_id u))) vs"
  using assms
  by (auto simp: update_def Let_def client_update_def
      split: option.splits sum.splits prod.splits)

lemma update_result:
  assumes "map_of (user_index s) (user_id u) = Some d"
    and "oauth_accounts u = Some es"
    and "oauth_accounts_values (user_id u) es = Inr vs"
  shows "update s u =
     (\<lparr>user_index = AList.update (user_id u) (d ++ (dict u)(''id'' := None)) (user_index s),
       oauth_account_index = async_bulk (client_delete_by_query (oauth_account_index s)
                    (Match ''user_id'' (user_id u))) vs\<rparr>, Inr u)"
  using assms
  by (simp add: update_def Let_def client_update_def)

subsection \<open>The duplicate check of create\<close>

lemma get_by_email_found:
  assumes "\<exists>h\<in>set (user_index s). snd h ''email'' = Some (lower (email u))"
  shows "\<exists>found. get_by_email s (lower (email u)) = Inr (Some found)"
proof -
  obtain hit hits where
    hits: "client_search (user_index s) (Match ''email'' (lower (lower (email u)))) = hit # hits"
    using assms by (cases "client_search (user_index s) (Match ''email'' (lower (email u)))")
      (auto simp: lower_lower client_search_def filter_empty_conv)
  show ?thesis
    using get_by_email_hit [of s "lower (email u)" "fst hit" "snd hit" hits] hits by simp
qed

lemma create_found:
  assumes "get_by_email s (lower (email u)) = Inr (Some found)"
  shows "create s u =
     (s, Inl (if \<exists>e\<in>set (entries u). e ''id'' = None then KeyError else Exception))"
proof (cases "\<exists>e\<in>set (entries u). e ''id'' = None")
  case True
  then obtain es where "oauth_accounts u = Some es" and "\<exists>e\<in>set es. e ''id'' = None"
    by (cases "oauth_accounts u") (auto simp: entries_def)
  then show ?thesis
    using True oauth_accounts_values_KeyError [of es "user_id u"] by (simp add: create_def)
next
  case False
  show ?thesis
  proof (cases "oauth_accounts u")
    case None
    then show ?thesis using False assms by (simp add: create_def)
  next
    case (Some es)
    then have "\<forall>e\<in>set es. e ''id'' \<noteq> None"
      using False by (simp add: entries_def)
    then obtain vs where "oauth_accounts_values (user_id u) es = Inr vs"
      using oauth_accounts_values_total by blast
    then show ?thesis using False assms Some by (simp add: create_def)
  qed
qed

subsection \<open>The examples, evaluated\<close>

lemma create_alice: "create empty_store alice = (alice_store, Inr alice)"
  by (auto simp add: examples adapter_defs fun_eq_iff map_add_def)

lemma update_alice: "snd (update alice_store alice) = Inr alice"
  by (simp add: examples adapter_defs)

section \<open>The claims\<close>

subsection \<open>C1: create, then get\<close>




subsection \<open>C2: create refuses an email that is already stored\<close>




text \<open>
  The property as the specification's tests have it: once \<open>create\<close> has accepted a record,
  \<open>create\<close> of a record with a case-insensitively equal email fails in the store it left,
  and leaves that store as it is.
\<close>

theorem create_again_fails:
  assumes "create s u1 = (s1, Inr r)" and "lower (email u2) = lower (email u1)"
  shows "create s1 u2 =
     (s1, Inl (if \<exists>e\<in>set (entries u2). e ''id'' = None then KeyError else Exception))"
proof -
  define body where "body = (dict u1)(''email'' \<mapsto> lower (email u1), ''id'' := None)"
  have "user_index s1 = AList.update (user_id u1) body (user_index s)"
    using create_success(3) [OF assms(1)] by (simp add: body_def client_index_def)
  then have "map_of (user_index s1) (user_id u1) = Some body"
    by (simp add: update_conv')
  then have "(user_id u1, body) \<in> set (user_index s1)"
    by (rule map_of_SomeD)
  moreover have "body ''email'' = Some (lower (email u2))"
    by (simp add: body_def assms(2))
  ultimately have "\<exists>h\<in>set (user_index s1). snd h ''email'' = Some (lower (email u2))"
    by force
  then obtain found where "get_by_email s1 (lower (email u2)) = Inr (Some found)"
    using get_by_email_found by blast
  then show ?thesis
    by (rule create_found)
qed

theorem create_again_fails_witness:
  "create empty_store alice = (alice_store, Inr alice) \<and>
   lower (email (carol\<lparr>email := ''a@B.COM''\<rparr>)) = lower (email alice) \<and>
   create alice_store (carol\<lparr>email := ''a@B.COM''\<rparr>) = (alice_store, Inl Exception)"
proof -
  have same: "lower (email (carol\<lparr>email := ''a@B.COM''\<rparr>)) = lower (email alice)"
    by (simp add: alice_def lower_def lower_char_def)
  have "create alice_store (carol\<lparr>email := ''a@B.COM''\<rparr>) = (alice_store, Inl Exception)"
    using create_again_fails [OF create_alice same] by (simp add: entries_def carol_def)
  then show ?thesis
    using create_alice same by blast
qed

subsection \<open>C3: update replaces the linked logins\<close>



subsection \<open>C4: delete does not cascade\<close>



subsection \<open>C5: get_by_email ignores the case of the email used at creation\<close>



subsection \<open>C6: a missing id is an empty result\<close>

text \<open>
  C6. For every id with no stored user document, \<open>get\<close> returns the empty result and not
  an error: the client's \<open>NotFoundError\<close> on the direct lookup is caught inside \<open>get\<close>.
\<close>

theorem get_missing_id_is_empty:
  "map_of (user_index s) i = None \<Longrightarrow> get s i = Inr None"
  by (simp add: get_def client_get_def)

theorem get_missing_id_is_empty_witness:
  "map_of (user_index empty_store) ''u1'' = None \<and> get empty_store ''u1'' = Inr None"
  using get_missing_id_is_empty [of empty_store "''u1''"]
  by (simp add: empty_store_def)

subsection \<open>C7: no linked-login document, no linked-login field\<close>

text \<open>
  C7. For a stored user with id \<open>i\<close> such that no linked-login document has the
  back-reference \<open>i\<close>, \<open>get\<close> returns a record whose linked-login field is absent
  (\<open>None\<close>), not present as an empty list (\<open>Some []\<close>).
\<close>

theorem get_without_linked_logins:
  assumes "map_of (user_index s) i = Some d" and "d ''email'' = Some e"
    and "client_search (oauth_account_index s) (Match ''user_id'' i) = []"
  shows "get s i = Inr (Some \<lparr>user_id = i, email = e,
            other_fields = d(''id'' := None, ''email'' := None),
            oauth_accounts = None\<rparr>)"
  using get_stored [OF assms(1,2)] assms(3)
  by (simp add: linked_accounts_def)

theorem get_without_linked_logins_witness:
  "map_of (user_index (fst (create alice_store bob))) ''u2''
     = Some [''hashed_password'' \<mapsto> ''y'', ''email'' \<mapsto> ''bob@c.org''] \<and>
   client_search (oauth_account_index (fst (create alice_store bob))) (Match ''user_id'' ''u2'')
     = [] \<and>
   get (fst (create alice_store bob)) ''u2''
     = Inr (Some \<lparr>user_id = ''u2'', email = ''bob@c.org'',
          other_fields = [''hashed_password'' \<mapsto> ''y'', ''email'' \<mapsto> ''bob@c.org'']
             (''id'' := None, ''email'' := None),
          oauth_accounts = None\<rparr>)"
proof -
  have stored: "map_of (user_index (fst (create alice_store bob))) ''u2''
     = Some [''hashed_password'' \<mapsto> ''y'', ''email'' \<mapsto> ''bob@c.org'']"
    by (auto simp add: examples bob_def adapter_defs fun_eq_iff)
  have mail: "[''hashed_password'' \<mapsto> ''y'', ''email'' \<mapsto> ''bob@c.org''] ''email''
      = Some ''bob@c.org''"
    by simp
  have none: "client_search (oauth_account_index (fst (create alice_store bob)))
      (Match ''user_id'' ''u2'') = []"
    by (simp add: examples bob_def adapter_defs)
  show ?thesis
    by (intro conjI stored none get_without_linked_logins [OF stored mail none])
qed

subsection \<open>C8: create and update hand the input record back\<close>

text \<open>
  C8. Whenever \<open>create\<close> returns a record, it is the record it was given, with the
  caller's email casing and not the lowercased one that was stored; likewise whenever
  \<open>update\<close> returns a record, it is its input.
\<close>

theorem create_update_return_input:
  "(snd (create s u) = Inr r \<longrightarrow> r = u) \<and> (snd (update s u) = Inr r' \<longrightarrow> r' = u)"
  by (auto simp: create_def update_def Let_def split: option.splits sum.splits prod.splits)

theorem create_update_return_input_witness:
  "snd (create empty_store alice) = Inr alice \<and> email alice = ''A@B.com'' \<and>
   snd (update alice_store alice) = Inr alice"
  using create_update_return_input [of empty_store alice alice alice]
    create_update_return_input [of alice_store alice alice alice]
  by (simp add: create_alice update_alice) (simp add: alice_def)

subsection \<open>C9: update stores the email as given\<close>

text \<open>
  C9. \<open>update\<close> writes the email field verbatim; only \<open>create\<close> lowercases it. So when
  the record's email has an uppercase letter (it differs from its lowercased form), the
  stored email after \<open>update\<close> is that mixed-case string, and \<open>get_by_email\<close> with any
  casing of it, whose query is lowercased, does not return this user: it returns nothing, or
  a user with another id. The collection is taken to hold one document per id.
\<close>

theorem update_keeps_email_case:
  assumes "update s u = (s', Inr r)" and "distinct (map fst (user_index s))"
    and "email u \<noteq> lower (email u)" and "lower address = lower (email u)"
  shows "(\<exists>d. map_of (user_index s') (user_id u) = Some d \<and> d ''email'' = Some (email u)) \<and>
         (get_by_email s' address = Inr None \<or>
          (\<exists>r'. get_by_email s' address = Inr (Some r') \<and> user_id r' \<noteq> user_id u))"
proof -
  obtain d where d: "map_of (user_index s) (user_id u) = Some d"
    and idx: "user_index s' =
      AList.update (user_id u) (d ++ (dict u)(''id'' := None)) (user_index s)"
    using update_success(2) [OF assms(1)] by blast
  define body where "body = d ++ (dict u)(''id'' := None)"
  have mail: "body ''email'' = Some (email u)"
    by (simp add: body_def dict_def map_add_def)
  have stored: "map_of (user_index s') (user_id u) = Some body"
    by (simp add: idx body_def update_conv')
  have dist: "distinct (map fst (user_index s'))"
    using assms(2) by (simp add: idx distinct_update)
  have second: "get_by_email s' address = Inr None \<or>
          (\<exists>r'. get_by_email s' address = Inr (Some r') \<and> user_id r' \<noteq> user_id u)"
  proof (cases "client_search (user_index s') (Match ''email'' (lower address))")
    case Nil
    then show ?thesis by (simp add: get_by_email_def)
  next
    case (Cons hit hits)
    then have "hit \<in> set (client_search (user_index s') (Match ''email'' (lower address)))"
      by simp
    then have mem: "hit \<in> set (user_index s')" and m: "snd hit ''email'' = Some (lower address)"
      by (simp_all add: client_search_def)
    have "fst hit \<noteq> user_id u"
    proof
      assume "fst hit = user_id u"
      then have "map_of (user_index s') (user_id u) = Some (snd hit)"
        using mem dist by (metis map_of_is_SomeI prod.collapse)
      then show False using stored mail m assms(3,4) by simp
    qed
    then show ?thesis
      using get_by_email_hit [of s' address "fst hit" "snd hit" hits] Cons by simp
  qed
  show ?thesis using stored mail second by blast
qed

theorem update_keeps_email_case_witness:
  "update alice_store alice = (fst (update alice_store alice), Inr alice) \<and>
   distinct (map fst (user_index alice_store)) \<and>
   email alice \<noteq> lower (email alice) \<and>
   lower ''a@b.com'' = lower (email alice) \<and>
   (\<exists>d. map_of (user_index (fst (update alice_store alice))) (user_id alice) = Some d \<and>
        d ''email'' = Some ''A@B.com'') \<and>
   get_by_email (fst (update alice_store alice)) ''a@b.com'' = Inr None"
proof -
  have u: "update alice_store alice = (fst (update alice_store alice), Inr alice)"
    using update_alice by (simp add: prod_eq_iff)
  have dist: "distinct (map fst (user_index alice_store))"
    by (simp add: alice_store_def)
  have mixed: "email alice \<noteq> lower (email alice)"
    by (simp add: alice_def lower_def lower_char_def)
  have same: "lower ''a@b.com'' = lower (email alice)"
    by (simp add: alice_def lower_def lower_char_def)
  have none: "get_by_email (fst (update alice_store alice)) ''a@b.com'' = Inr None"
    by (simp add: examples adapter_defs map_add_def)
  have "\<exists>d. map_of (user_index (fst (update alice_store alice))) (user_id alice) = Some d \<and>
        d ''email'' = Some ''A@B.com''"
    using update_keeps_email_case [OF u dist mixed same] by (simp add: alice_def)
  then show ?thesis
    using u dist mixed same none by blast
qed

subsection \<open>C10: an empty list of linked logins clears them\<close>

text \<open>
  C10. When the record's linked-login field is present and is the empty list, \<open>update\<close>
  on an existing user deletes every stored linked-login document whose back-reference is the
  user's id and writes none; \<open>get\<close> then returns a record with the field absent.
\<close>

theorem update_empty_list_clears:
  assumes "map_of (user_index s) (user_id u) = Some d" and "oauth_accounts u = Some []"
  shows "\<exists>s' r. update s u = (s', Inr u) \<and>
           oauth_account_index s' =
             filter (\<lambda>h. snd h ''user_id'' \<noteq> Some (user_id u)) (oauth_account_index s) \<and>
           get s' (user_id u) = Inr (Some r) \<and> oauth_accounts r = None"
proof -
  define body where "body = d ++ (dict u)(''id'' := None)"
  define s' where "s' = \<lparr>user_index = AList.update (user_id u) body (user_index s),
       oauth_account_index = client_delete_by_query (oauth_account_index s)
                    (Match ''user_id'' (user_id u))\<rparr>"
  have upd: "update s u = (s', Inr u)"
    using update_result [OF assms(1,2), of "[]"] by (simp add: s'_def body_def)
  have mail: "body ''email'' = Some (email u)"
    by (simp add: body_def dict_def map_add_def)
  have stored: "map_of (user_index s') (user_id u) = Some body"
    by (simp add: s'_def update_conv')
  have gone: "linked_accounts s' (user_id u) = None"
    by (simp add: s'_def linked_accounts_def client_search_def client_delete_by_query_def
        filter_empty_conv)
  define r where "r = \<lparr>user_id = user_id u, email = email u,
            other_fields = body(''id'' := None, ''email'' := None),
            oauth_accounts = None\<rparr>"
  have got: "get s' (user_id u) = Inr (Some r)"
    using get_stored [OF stored mail] by (simp add: r_def gone)
  have absent: "oauth_accounts r = None"
    by (simp add: r_def)
  have cleared: "oauth_account_index s' =
      filter (\<lambda>h. snd h ''user_id'' \<noteq> Some (user_id u)) (oauth_account_index s)"
    by (simp add: s'_def client_delete_by_query_def)
  show ?thesis
    using upd cleared got absent by blast
qed

theorem update_empty_list_clears_witness:
  "map_of (user_index alice_store) (user_id (alice\<lparr>oauth_accounts := Some []\<rparr>))
     = Some [''hashed_password'' \<mapsto> ''x'', ''email'' \<mapsto> ''a@b.com''] \<and>
   oauth_accounts (alice\<lparr>oauth_accounts := Some []\<rparr>) = Some [] \<and>
   length (oauth_account_index alice_store) = 2 \<and>
   (\<exists>s' r. update alice_store (alice\<lparr>oauth_accounts := Some []\<rparr>)
               = (s', Inr (alice\<lparr>oauth_accounts := Some []\<rparr>)) \<and>
           oauth_account_index s' = [] \<and>
           get s' ''u1'' = Inr (Some r) \<and> oauth_accounts r = None)"
proof -
  have stored: "map_of (user_index alice_store) (user_id (alice\<lparr>oauth_accounts := Some []\<rparr>))
     = Some [''hashed_password'' \<mapsto> ''x'', ''email'' \<mapsto> ''a@b.com'']"
    by (simp add: examples)
  have empty: "oauth_accounts (alice\<lparr>oauth_accounts := Some []\<rparr>) = Some []"
    by simp
  have two: "length (oauth_account_index alice_store) = 2"
    by (simp add: alice_store_def)
  have "\<exists>s' r. update alice_store (alice\<lparr>oauth_accounts := Some []\<rparr>)
               = (s', Inr (alice\<lparr>oauth_accounts := Some []\<rparr>)) \<and>
           oauth_account_index s' = [] \<and>
           get s' ''u1'' = Inr (Some r) \<and> oauth_accounts r = None"
    using update_empty_list_clears [OF stored empty] by (simp add: examples)
  then show ?thesis
    using stored empty two by blast
qed

end
